theory Spec2Isabelle
  imports Main
begin

section \<open>Fragmented Squares: the game engine of Code.py\<close>

text \<open>
  A shallow embedding of the class \<open>FragmentedSquaresGame\<close> of \<^verbatim>\<open>src/Code.py\<close>.
  Every method takes the object (\<open>self\<close>) as its first argument and returns the
  updated object where the source mutates it. Python sets are HOL sets, the dictionary
  \<open>self.edges\<close> is a map, the move history is a list. The calls of \<open>print\<close> have no
  effect on the state and are left out.
\<close>

subsection \<open>Constants and data\<close>

text \<open>The two players; the source names them by the strings below.\<close>

datatype player = LEFT_PLAYER | RIGHT_PLAYER

fun player_str :: "player \<Rightarrow> string" where
  "player_str LEFT_PLAYER = ''Left (Blue)''"
| "player_str RIGHT_PLAYER = ''Right (Red)''"

text \<open>
  The two edge colours. The source holds them as RGB triples and only ever compares
  them with \<open>==\<close>; an edge is coloured by \<open>random.choice([RED, BLUE])\<close>, so no other
  colour occurs in \<open>self.edges\<close>.
\<close>

datatype color = BLUE | RED

datatype orientation = HORIZONTAL | VERTICAL

type_synonym square = "int \<times> int"

type_synonym edge_tuple = "square \<times> orientation"

text \<open>The exceptions the engine can raise.\<close>

datatype error = ValueError | KeyError

text \<open>A value of \<open>self.edges\<close>: the dictionary \<open>{'color': .., 'exists': ..}\<close>.\<close>

record edge_info =
  color :: color
  exists :: bool

text \<open>An entry of \<open>self.move_history\<close> (the dictionary \<open>move_data\<close>).\<close>

record move_data =
  turn :: nat
  player :: player
  edge_removed :: edge_tuple
  edge_color :: string
  squares_destroyed :: "square set"
  active_squares_before :: "square set"
  active_squares_after :: "square set"
  game_over_after :: bool
  winner :: "player option"

text \<open>The dictionary returned by \<open>get_state_summary\<close>.\<close>

record state_summary =
  active_squares :: nat
  current_player :: player
  winner :: "player option"
  total_moves :: nat

text \<open>The attributes of a \<open>FragmentedSquaresGame\<close> object.\<close>

record FragmentedSquaresGame =
  all_squares_coords :: "square set"
  active_squares_coords :: "square set"
  edges :: "edge_tuple \<rightharpoonup> edge_info"
  current_player :: player
  winner :: "player option"
  last_move_destructions :: nat
  move_history :: "move_data list"

subsection \<open>Formatting of numbers\<close>

text \<open>Python's \<open>str\<close> of a non-negative integer, used by the f-string of \<open>make_move\<close>.\<close>

definition digit_char :: "nat \<Rightarrow> char" where
  "digit_char d = ''0123456789'' ! d"

fun str_nat :: "nat \<Rightarrow> string" where
  "str_nat n =
     (if n < 10 then [digit_char n] else str_nat (n div 10) @ [digit_char (n mod 10)])"

declare str_nat.simps [simp del]

subsection \<open>Edges and squares\<close>

text \<open>
  \<open>get_squares_sharing_edge\<close>: the squares on both sides of an edge, kept only when
  they belong to the original shape.
\<close>

definition get_squares_sharing_edge :: "FragmentedSquaresGame \<Rightarrow> edge_tuple \<Rightarrow> square set" where
  "get_squares_sharing_edge self edge_tuple =
     (case edge_tuple of ((r, c), orientation) \<Rightarrow>
        (if orientation = HORIZONTAL then {(r, c), (r + 1, c)}
         else if orientation = VERTICAL then {(r, c), (r, c + 1)}
         else {})
        \<inter> all_squares_coords self)"

definition get_edges_of_square :: "square \<Rightarrow> edge_tuple set" where
  "get_edges_of_square square_coord =
     (case square_coord of (r, c) \<Rightarrow>
        {((r - 1, c), HORIZONTAL), ((r, c), HORIZONTAL),
         ((r, c - 1), VERTICAL), ((r, c), VERTICAL)})"

text \<open>The set \<open>potential_edges\<close> collected by the first loop of \<open>_initialize_edges\<close>.\<close>

definition potential_edges :: "square set \<Rightarrow> edge_tuple set" where
  "potential_edges shape =
     (\<Union>(r, c) \<in> shape.
        {((r, c), HORIZONTAL), ((r, c), VERTICAL),
         ((r - 1, c), HORIZONTAL), ((r, c - 1), VERTICAL)})"

text \<open>
  \<open>_initialize_edges\<close>. The second loop visits every potential edge once; an edge not
  yet in \<open>self.edges\<close> that borders a square of the shape is entered with
  \<open>exists = True\<close> and a random colour. The random draws are the parameter
  \<open>choice\<close>: the colour drawn for each edge.
\<close>

definition initialize_edges ::
  "(edge_tuple \<Rightarrow> color) \<Rightarrow> FragmentedSquaresGame \<Rightarrow> FragmentedSquaresGame" where
  "initialize_edges choice self =
     self\<lparr>edges :=
       (\<lambda>edge_tuple.
          if edge_tuple \<in> potential_edges (all_squares_coords self)
             \<and> edges self edge_tuple = None
             \<and> get_squares_sharing_edge self edge_tuple \<inter> all_squares_coords self \<noteq> {}
          then Some \<lparr>color = choice edge_tuple, exists = True\<rparr>
          else edges self edge_tuple)\<rparr>"

subsection \<open>Construction and reset\<close>

definition reset ::
  "(edge_tuple \<Rightarrow> color) \<Rightarrow> FragmentedSquaresGame \<Rightarrow> FragmentedSquaresGame" where
  "reset choice self =
     initialize_edges choice
       (self\<lparr>active_squares_coords := all_squares_coords self,
             edges := Map.empty,
             current_player := LEFT_PLAYER,
             winner := None,
             last_move_destructions := 0,
             move_history := []\<rparr>)"

text \<open>
  \<open>__init__\<close>: an empty shape raises \<open>ValueError\<close>; otherwise the shape is stored and
  \<open>reset\<close> sets every other attribute (the values given to them here are
  overwritten by \<open>reset\<close>).
\<close>

definition init ::
  "square set \<Rightarrow> (edge_tuple \<Rightarrow> color) \<Rightarrow> error + FragmentedSquaresGame" where
  "init squares_coords choice =
     (if squares_coords = {} then Inl ValueError
      else Inr (reset choice
        \<lparr>all_squares_coords = squares_coords,
         active_squares_coords = {},
         edges = Map.empty,
         current_player = LEFT_PLAYER,
         winner = None,
         last_move_destructions = 0,
         move_history = []\<rparr>))"

subsection \<open>Legality of a move\<close>

definition is_valid_move :: "FragmentedSquaresGame \<Rightarrow> edge_tuple \<Rightarrow> bool" where
  "is_valid_move self edge_tuple =
     (if winner self \<noteq> None then False
      else case edges self edge_tuple of
        None \<Rightarrow> False
      | Some e \<Rightarrow>
          if \<not> exists e then False
          else
            let edge_color = color e;
                player_can_remove =
                  (current_player self = LEFT_PLAYER \<and> edge_color = BLUE) \<or>
                  (current_player self = RIGHT_PLAYER \<and> edge_color = RED)
            in if \<not> player_can_remove then False
               else
                 let squares_bordered = get_squares_sharing_edge self edge_tuple;
                     borders_active_square =
                       (\<exists>sq \<in> squares_bordered. sq \<in> active_squares_coords self)
                 in if \<not> borders_active_square then False else True)"

text \<open>
  \<open>get_legal_moves\<close> returns the valid edges as a list in the order of the dictionary;
  the model keeps the edges and leaves the order out.
\<close>

definition get_legal_moves :: "FragmentedSquaresGame \<Rightarrow> edge_tuple set" where
  "get_legal_moves self = {edge_tuple \<in> dom (edges self). is_valid_move self edge_tuple}"

subsection \<open>Making a move\<close>

text \<open>The reason given when a move is refused.\<close>

definition invalid_reason :: "FragmentedSquaresGame \<Rightarrow> edge_tuple \<Rightarrow> string" where
  "invalid_reason self edge_tuple =
     (case edges self edge_tuple of
        None \<Rightarrow> ''Edge does not exist or already removed''
      | Some e \<Rightarrow>
          if \<not> exists e then ''Edge does not exist or already removed''
          else
            let edge_color = color e;
                player_req_color = (if current_player self = LEFT_PLAYER then BLUE else RED)
            in if edge_color \<noteq> player_req_color then
                 ''Incorrect color (Player: '' @ player_str (current_player self)
                   @ '', Edge: '' @ (if edge_color = BLUE then ''Blue'' else ''Red'') @ '')''
               else
                 let squares_bordered = get_squares_sharing_edge self edge_tuple
                 in if \<not> (\<exists>sq \<in> squares_bordered. sq \<in> active_squares_coords self)
                    then ''Edge does not border any active squares''
                    else ''Unknown reason'')"

text \<open>
  The part of \<open>make_move\<close> after the validity check, for an edge whose entry in
  \<open>self.edges\<close> is \<open>e\<close>. The loop over the bordered squares removes the active ones
  from the active set and collects them in \<open>destroyed_this_turn\<close>.
\<close>

definition perform_move ::
  "FragmentedSquaresGame \<Rightarrow> edge_tuple \<Rightarrow> edge_info \<Rightarrow> (bool \<times> string) \<times> FragmentedSquaresGame" where
  "perform_move self edge_tuple e =
     (let self1 = self\<lparr>edges := (edges self)(edge_tuple \<mapsto> e\<lparr>exists := False\<rparr>)\<rparr>;
          edge_color = color e;
          squares_potentially_affected = get_squares_sharing_edge self1 edge_tuple;
          destroyed_this_turn = squares_potentially_affected \<inter> active_squares_coords self1;
          self2 = self1\<lparr>active_squares_coords :=
                    active_squares_coords self1 - destroyed_this_turn\<rparr>;
          self3 = self2\<lparr>last_move_destructions := card destroyed_this_turn\<rparr>;
          active_squares_before_move = active_squares_coords self3 \<union> destroyed_this_turn;
          move_data0 =
            \<lparr>turn = length (move_history self3) + 1,
             player = current_player self3,
             edge_removed = edge_tuple,
             edge_color = (if edge_color = BLUE then ''Blue'' else ''Red''),
             squares_destroyed = destroyed_this_turn,
             active_squares_before = active_squares_before_move,
             active_squares_after = active_squares_coords self3,
             game_over_after = False,
             winner = None\<rparr>;
          game_over = (active_squares_coords self3 = {});
          self4 = (if game_over then self3\<lparr>winner := Some (current_player self3)\<rparr> else self3);
          move_data =
            (if game_over
             then move_data0\<lparr>game_over_after := True, move_data.winner := winner self4\<rparr>
             else move_data0);
          self5 = self4\<lparr>move_history := move_history self4 @ [move_data]\<rparr>;
          self6 = (if winner self5 = None
                   then self5\<lparr>current_player :=
                     (if current_player self5 = LEFT_PLAYER then RIGHT_PLAYER else LEFT_PLAYER)\<rparr>
                   else self5)
      in ((True, ''Destroyed '' @ str_nat (last_move_destructions self6) @ '' square(s).''),
          self6))"

text \<open>
  \<open>make_move\<close> returns the pair \<open>(success, message)\<close> and the updated object. The
  subscript \<open>self.edges[edge_tuple]\<close> raises \<open>KeyError\<close> on a missing key.
\<close>

definition make_move ::
  "FragmentedSquaresGame \<Rightarrow> edge_tuple \<Rightarrow> error + (bool \<times> string) \<times> FragmentedSquaresGame" where
  "make_move self edge_tuple =
     (if \<not> is_valid_move self edge_tuple
      then Inr ((False, ''Invalid Move: '' @ invalid_reason self edge_tuple), self)
      else case edges self edge_tuple of
        None \<Rightarrow> Inl KeyError
      | Some e \<Rightarrow> Inr (perform_move self edge_tuple e))"

definition get_state_summary :: "FragmentedSquaresGame \<Rightarrow> state_summary" where
  "get_state_summary self =
     \<lparr>active_squares = card (active_squares_coords self),
      current_player = current_player self,
      winner = winner self,
      total_moves = length (move_history self)\<rparr>"

subsection \<open>Sequences of calls\<close>

text \<open>
  A caller making one \<open>make_move\<close> call after another; an exception ends the run.
\<close>

fun make_moves :: "FragmentedSquaresGame \<Rightarrow> edge_tuple list \<Rightarrow> error + FragmentedSquaresGame" where
  "make_moves self [] = Inr self"
| "make_moves self (edge_tuple # rest) =
     (case make_move self edge_tuple of
        Inl err \<Rightarrow> Inl err
      | Inr (result, self') \<Rightarrow> make_moves self' rest)"

text \<open>
  The successful calls of such a run: for each call that returned \<open>True\<close>, the object
  before the call and the object after it.
\<close>

fun successful_moves ::
  "FragmentedSquaresGame \<Rightarrow> edge_tuple list \<Rightarrow> (FragmentedSquaresGame \<times> FragmentedSquaresGame) list" where
  "successful_moves self [] = []"
| "successful_moves self (edge_tuple # rest) =
     (case make_move self edge_tuple of
        Inl err \<Rightarrow> []
      | Inr ((success, message), self') \<Rightarrow>
          (if success then [(self, self')] else []) @ successful_moves self' rest)"

text \<open>
  A caller that also resets the game (the Play Again button of \<open>main\<close>); each reset
  comes with its own random draws.
\<close>

datatype call = Move edge_tuple | Reset "edge_tuple \<Rightarrow> color"

fun run_calls :: "FragmentedSquaresGame \<Rightarrow> call list \<Rightarrow> error + FragmentedSquaresGame" where
  "run_calls self [] = Inr self"
| "run_calls self (Move edge_tuple # rest) =
     (case make_move self edge_tuple of
        Inl err \<Rightarrow> Inl err
      | Inr (result, self') \<Rightarrow> run_calls self' rest)"
| "run_calls self (Reset choice # rest) = run_calls (reset choice self) rest"

subsection \<open>The shapes of \<open>main\<close>\<close>

definition simple_square :: "square set" where
  "simple_square = {(0, 0)}"

definition l_shape_squares :: "square set" where
  "l_shape_squares = {(0, 0), (0, 1), (1, 0)}"

subsection \<open>An example game\<close>

text \<open>
  A game on the L shape used as a running example: the random draws colour every
  horizontal edge blue and every vertical edge red; Left removes the edge between
  \<open>(0, 0)\<close> and \<open>(1, 0)\<close>, then Right removes the right edge of \<open>(0, 1)\<close>.
\<close>

definition by_orientation :: "edge_tuple \<Rightarrow> color" where
  "by_orientation edge_tuple =
     (case edge_tuple of (sq, orientation) \<Rightarrow> if orientation = HORIZONTAL then BLUE else RED)"

definition l_game0 :: FragmentedSquaresGame where
  "l_game0 = projr (init l_shape_squares by_orientation)"

definition l_game1 :: FragmentedSquaresGame where
  "l_game1 = snd (projr (make_move l_game0 ((0, 0), HORIZONTAL)))"

definition l_game2 :: FragmentedSquaresGame where
  "l_game2 = snd (projr (make_move l_game1 ((0, 1), VERTICAL)))"

section \<open>Basic facts\<close>

subsection \<open>The squares of an edge\<close>

lemma sharing_edges_upd [simp]:
  "get_squares_sharing_edge (self\<lparr>edges := x\<rparr>) = get_squares_sharing_edge self"
  by (simp add: get_squares_sharing_edge_def fun_eq_iff)

lemma sharing_subset_pair:
  "\<exists>a b. get_squares_sharing_edge self et \<subseteq> {a, b}"
  by (cases et) (auto simp: get_squares_sharing_edge_def split: prod.splits)

lemma sharing_finite: "finite (get_squares_sharing_edge self et)"
  using sharing_subset_pair [of self et] by (auto intro: finite_subset)

lemma sharing_card: "card (get_squares_sharing_edge self et) \<le> 2"
proof -
  obtain a b where "get_squares_sharing_edge self et \<subseteq> {a, b}"
    using sharing_subset_pair by blast
  then have "card (get_squares_sharing_edge self et) \<le> card {a, b}"
    by (intro card_mono) auto
  also have "\<dots> \<le> 2" by (simp add: card_insert_if)
  finally show ?thesis .
qed

lemma sharing_subset_all: "get_squares_sharing_edge self et \<subseteq> all_squares_coords self"
  by (cases et) (auto simp: get_squares_sharing_edge_def)

lemma pm_all: "all_squares_coords (snd (perform_move self et e)) = all_squares_coords self"
  by (simp add: perform_move_def Let_def)

lemma pm_active: "active_squares_coords (snd (perform_move self et e)) =
    active_squares_coords self - get_squares_sharing_edge self et"
  by (simp add: perform_move_def Let_def Diff_Int)

lemma pm_edges: "edges (snd (perform_move self et e)) = (edges self)(et \<mapsto> e\<lparr>exists := False\<rparr>)"
  by (simp add: perform_move_def Let_def)

lemma pm_winner: "FragmentedSquaresGame.winner (snd (perform_move self et e)) =
   (if active_squares_coords self - get_squares_sharing_edge self et = {}
    then Some (FragmentedSquaresGame.current_player self) else FragmentedSquaresGame.winner self)"
  by (simp add: perform_move_def Let_def Diff_Int)

lemma pm_current_player: "FragmentedSquaresGame.current_player (snd (perform_move self et e)) =
   (if active_squares_coords self - get_squares_sharing_edge self et = {}
       \<or> FragmentedSquaresGame.winner self \<noteq> None
    then FragmentedSquaresGame.current_player self
    else if FragmentedSquaresGame.current_player self = LEFT_PLAYER then RIGHT_PLAYER else LEFT_PLAYER)"
  by (simp add: perform_move_def Let_def Diff_Int)

lemma pm_destructions: "last_move_destructions (snd (perform_move self et e)) =
   card (get_squares_sharing_edge self et \<inter> active_squares_coords self)"
  by (simp add: perform_move_def Let_def)

lemma pm_result: "fst (perform_move self et e) =
   (True, ''Destroyed '' @ str_nat (card (get_squares_sharing_edge self et \<inter> active_squares_coords self))
      @ '' square(s).'')"
  by (simp add: perform_move_def Let_def)

lemma pm_history: "move_history (snd (perform_move self et e)) =
   move_history self @
   [\<lparr>turn = length (move_history self) + 1,
     player = FragmentedSquaresGame.current_player self,
     edge_removed = et,
     edge_color = (if color e = BLUE then ''Blue'' else ''Red''),
     squares_destroyed = get_squares_sharing_edge self et \<inter> active_squares_coords self,
     active_squares_before = active_squares_coords self,
     active_squares_after = active_squares_coords self - get_squares_sharing_edge self et,
     game_over_after = (active_squares_coords self - get_squares_sharing_edge self et = {}),
     winner = (if active_squares_coords self - get_squares_sharing_edge self et = {}
               then Some (FragmentedSquaresGame.current_player self) else None)\<rparr>]"
  by (auto simp: perform_move_def Let_def Diff_Int)

lemma is_valid_move_iff:
  "is_valid_move self et \<longleftrightarrow>
     FragmentedSquaresGame.winner self = None \<and>
     (\<exists>e. edges self et = Some e \<and> exists e \<and>
        color e = (if FragmentedSquaresGame.current_player self = LEFT_PLAYER then BLUE else RED)) \<and>
     get_squares_sharing_edge self et \<inter> active_squares_coords self \<noteq> {}"
  by (cases "FragmentedSquaresGame.current_player self")
     (auto simp: is_valid_move_def Let_def split: option.splits color.splits)

lemma make_move_invalid:
  "\<not> is_valid_move self et \<Longrightarrow>
     make_move self et = Inr ((False, ''Invalid Move: '' @ invalid_reason self et), self)"
  by (simp add: make_move_def)

lemma make_move_valid:
  "is_valid_move self et \<Longrightarrow>
     \<exists>e. edges self et = Some e \<and> exists e \<and> make_move self et = Inr (perform_move self et e)"
  by (auto simp: make_move_def is_valid_move_iff)

lemma make_move_total: "\<exists>r self'. make_move self et = Inr (r, self')"
proof (cases "is_valid_move self et")
  case True
  then obtain e where "make_move self et = Inr (perform_move self et e)"
    using make_move_valid by blast
  then show ?thesis by (cases "perform_move self et e") simp
next
  case False
  then show ?thesis by (auto simp: make_move_invalid)
qed

subsection \<open>Construction and reset\<close>

lemma init_nonempty:
  "squares_coords \<noteq> {} \<Longrightarrow> init squares_coords choice =
     Inr (reset choice
        \<lparr>all_squares_coords = squares_coords,
         active_squares_coords = {},
         edges = Map.empty,
         current_player = LEFT_PLAYER,
         winner = None,
         last_move_destructions = 0,
         move_history = []\<rparr>)"
  by (simp add: init_def)

lemma reset_all: "all_squares_coords (reset choice self) = all_squares_coords self"
  by (simp add: reset_def initialize_edges_def)
lemma reset_active: "active_squares_coords (reset choice self) = all_squares_coords self"
  by (simp add: reset_def initialize_edges_def)
lemma reset_winner: "FragmentedSquaresGame.winner (reset choice self) = None"
  by (simp add: reset_def initialize_edges_def)
lemma reset_current_player: "FragmentedSquaresGame.current_player (reset choice self) = LEFT_PLAYER"
  by (simp add: reset_def initialize_edges_def)
lemma reset_history: "move_history (reset choice self) = []"
  by (simp add: reset_def initialize_edges_def)
lemma reset_destructions: "last_move_destructions (reset choice self) = 0"
  by (simp add: reset_def initialize_edges_def)
lemma reset_edges: "edges (reset choice self) et =
   (if et \<in> potential_edges (all_squares_coords self)
       \<and> get_squares_sharing_edge self et \<noteq> {}
    then Some \<lparr>color = choice et, exists = True\<rparr> else None)"
  using sharing_subset_all [of self et]
  by (auto simp: reset_def initialize_edges_def get_squares_sharing_edge_def)

lemma sharing_reset [simp]:
  "get_squares_sharing_edge (reset choice self) = get_squares_sharing_edge self"
  by (simp add: get_squares_sharing_edge_def fun_eq_iff reset_all)

lemmas reset_simps = reset_all reset_active reset_winner reset_current_player
  reset_history reset_destructions reset_edges

subsection \<open>Runs\<close>

lemma make_move_cases:
  obtains (refused) "\<not> is_valid_move self et"
      "make_move self et = Inr ((False, ''Invalid Move: '' @ invalid_reason self et), self)"
  | (performed) e where "is_valid_move self et" "edges self et = Some e" "exists e"
      "make_move self et = Inr (perform_move self et e)"
  using make_move_invalid make_move_valid by blast

lemma make_moves_total: "\<exists>self'. make_moves self ets = Inr self'"
proof (induction ets arbitrary: self)
  case Nil
  show ?case by simp
next
  case (Cons et ets)
  obtain r self1 where "make_move self et = Inr (r, self1)"
    using make_move_total by blast
  with Cons [of self1] show ?case by simp
qed

lemma make_moves_append:
  "make_moves self ets = Inr self1 \<Longrightarrow> make_moves self (ets @ ets') = make_moves self1 ets'"
proof (induction ets arbitrary: self)
  case Nil
  then show ?case by simp
next
  case (Cons et ets)
  obtain r self2 where mm: "make_move self et = Inr (r, self2)"
    using make_move_total by blast
  with Cons.prems have "make_moves self2 ets = Inr self1" by simp
  from Cons.IH [OF this] mm show ?case by simp
qed

text \<open>An invariant of the performed moves is an invariant of every run.\<close>

lemma make_moves_invariant:
  assumes run: "make_moves self ets = Inr self'"
    and start: "P self"
    and step: "\<And>s et e. P s \<Longrightarrow> is_valid_move s et \<Longrightarrow> edges s et = Some e \<Longrightarrow> exists e
       \<Longrightarrow> P (snd (perform_move s et e))"
  shows "P self'"
  using run start
proof (induction ets arbitrary: self)
  case Nil
  then show ?case by simp
next
  case (Cons et ets)
  show ?case
  proof (cases rule: make_move_cases [of self et])
    case refused
    with Cons.prems have "make_moves self ets = Inr self'" by simp
    from Cons.IH [OF this Cons.prems(2)] show ?thesis .
  next
    case (performed e)
    with Cons.prems have "make_moves (snd (perform_move self et e)) ets = Inr self'"
      by (simp add: split_beta)
    moreover have "P (snd (perform_move self et e))"
      using step [OF Cons.prems(2) performed(1,2,3)] .
    ultimately show ?thesis by (rule Cons.IH)
  qed
qed

lemma make_moves_finished:
  "FragmentedSquaresGame.winner self \<noteq> None \<Longrightarrow> make_moves self ets = Inr self"
proof (induction ets)
  case Nil
  show ?case by simp
next
  case (Cons et ets)
  from Cons.prems have "\<not> is_valid_move self et"
    by (simp add: is_valid_move_iff)
  then show ?case using Cons by (simp add: make_move_invalid)
qed

lemma make_moves_all:
  "make_moves self ets = Inr self' \<Longrightarrow> all_squares_coords self' = all_squares_coords self"
  by (erule make_moves_invariant) (simp_all add: pm_all)

lemma make_moves_active:
  "make_moves self ets = Inr self' \<Longrightarrow> active_squares_coords self' \<subseteq> active_squares_coords self"
  by (erule make_moves_invariant) (auto simp: pm_active)

lemma make_moves_edges:
  "make_moves self ets = Inr self' \<Longrightarrow>
     (case edges self' et of
        None \<Rightarrow> edges self et = None
      | Some e' \<Rightarrow> \<exists>e. edges self et = Some e \<and> color e' = color e \<and> (exists e \<or> \<not> exists e'))"
proof (erule make_moves_invariant, goal_cases)
  case 1
  show ?case by (simp split: option.splits)
next
  case (2 s et' e)
  then show ?case by (auto simp: pm_edges split: option.splits)
qed

subsection \<open>The history and the number of moves of a run\<close>

lemma successful_moves_refused:
  "\<not> is_valid_move self et \<Longrightarrow> successful_moves self (et # ets) = successful_moves self ets"
  by (simp add: make_move_invalid)

lemma successful_moves_performed:
  "is_valid_move self et \<Longrightarrow> edges self et = Some e \<Longrightarrow>
     successful_moves self (et # ets) =
       (self, snd (perform_move self et e)) # successful_moves (snd (perform_move self et e)) ets"
  using pm_result [of self et e]
  by (auto simp: make_move_def split_beta prod_eq_iff)

lemma make_moves_refused:
  "\<not> is_valid_move self et \<Longrightarrow> make_moves self (et # ets) = make_moves self ets"
  by (simp add: make_move_invalid)

lemma make_moves_performed:
  "is_valid_move self et \<Longrightarrow> edges self et = Some e \<Longrightarrow>
     make_moves self (et # ets) = make_moves (snd (perform_move self et e)) ets"
  by (simp add: make_move_def split_beta)

lemma history_of_run:
  assumes "make_moves self ets = Inr final"
  shows "length (move_history final) =
           length (move_history self) + length (successful_moves self ets) \<and>
         map turn (move_history final) =
           map turn (move_history self) @
           [length (move_history self) + 1 ..<
            length (move_history self) + length (successful_moves self ets) + 1] \<and>
         map active_squares_before (move_history final) =
           map active_squares_before (move_history self) @
           map (\<lambda>(before, after). active_squares_coords before) (successful_moves self ets) \<and>
         map active_squares_after (move_history final) =
           map active_squares_after (move_history self) @
           map (\<lambda>(before, after). active_squares_coords after) (successful_moves self ets) \<and>
         active_squares_coords final =
           (if successful_moves self ets = [] then active_squares_coords self
            else active_squares_coords (snd (last (successful_moves self ets))))"
  using assms
proof (induction ets arbitrary: self)
  case Nil
  then show ?case by simp
next
  case (Cons et ets)
  show ?case
  proof (cases rule: make_move_cases [of self et])
    case refused
    from Cons.prems have "make_moves self ets = Inr final"
      by (simp only: make_moves_refused [OF refused(1)])
    from Cons.IH [OF this] show ?thesis
      by (simp only: successful_moves_refused [OF refused(1)])
  next
    case (performed e)
    define self1 where "self1 = snd (perform_move self et e)"
    from Cons.prems have "make_moves self1 ets = Inr final"
      by (simp only: make_moves_performed [OF performed(1,2)] self1_def)
    note ih = Cons.IH [OF this]
    have sm: "successful_moves self (et # ets) = (self, self1) # successful_moves self1 ets"
      by (simp only: successful_moves_performed [OF performed(1,2)] self1_def)
    have h: "move_history self1 = move_history self @ [last (move_history self1)]"
      and t: "turn (last (move_history self1)) = length (move_history self) + 1"
      and b: "active_squares_before (last (move_history self1)) = active_squares_coords self"
      and a: "active_squares_after (last (move_history self1)) = active_squares_coords self1"
      by (simp_all add: self1_def pm_history pm_active)
    have len: "length (move_history self1) = length (move_history self) + 1"
      by (subst h) simp
    let ?n = "length (move_history self)"
    let ?k = "length (successful_moves self1 ets)"
    have upt: "[Suc ?n ..< Suc (Suc (?n + ?k))] = Suc ?n # [Suc (Suc ?n) ..< Suc (Suc (?n + ?k))]"
      by (rule upt_conv_Cons) simp
    have mt: "map turn (move_history self1) = map turn (move_history self) @ [?n + 1]"
      by (subst h) (simp add: t)
    have mb: "map active_squares_before (move_history self1) =
        map active_squares_before (move_history self) @ [active_squares_coords self]"
      by (subst h) (simp add: b)
    have ma: "map active_squares_after (move_history self1) =
        map active_squares_after (move_history self) @ [active_squares_coords self1]"
      by (subst h) (simp add: a)
    from ih show ?thesis
      unfolding sm len mt mb ma
      by (simp add: upt del: upt_Suc)
  qed
qed

lemma moves_bounded:
  assumes "make_moves self ets = Inr final" "finite (active_squares_coords self)"
  shows "length (successful_moves self ets) + card (active_squares_coords final)
           \<le> card (active_squares_coords self)"
  using assms
proof (induction ets arbitrary: self)
  case Nil
  then show ?case by simp
next
  case (Cons et ets)
  show ?case
  proof (cases rule: make_move_cases [of self et])
    case refused
    from Cons.prems(1) have "make_moves self ets = Inr final"
      by (simp only: make_moves_refused [OF refused(1)])
    from Cons.IH [OF this Cons.prems(2)] show ?thesis
      by (simp only: successful_moves_refused [OF refused(1)])
  next
    case (performed e)
    define self1 where "self1 = snd (perform_move self et e)"
    from Cons.prems(1) have run: "make_moves self1 ets = Inr final"
      by (simp only: make_moves_performed [OF performed(1,2)] self1_def)
    have act: "active_squares_coords self1 =
        active_squares_coords self - get_squares_sharing_edge self et"
      by (simp add: self1_def pm_active)
    from performed(1) have "get_squares_sharing_edge self et \<inter> active_squares_coords self \<noteq> {}"
      by (simp add: is_valid_move_iff)
    then have "active_squares_coords self1 \<subset> active_squares_coords self"
      unfolding act by blast
    then have less: "card (active_squares_coords self1) < card (active_squares_coords self)"
      using Cons.prems(2) by (rule psubset_card_mono [rotated])
    have fin: "finite (active_squares_coords self1)"
      unfolding act using Cons.prems(2) by simp
    have sm: "successful_moves self (et # ets) = (self, self1) # successful_moves self1 ets"
      by (simp only: successful_moves_performed [OF performed(1,2)] self1_def)
    from Cons.IH [OF run fin] less show ?thesis
      unfolding sm by simp
  qed
qed

subsection \<open>The reason of a refusal\<close>

lemma finished_no_active:
  assumes "make_moves (reset choice start) ets = Inr self"
  shows "FragmentedSquaresGame.winner self = None \<or> active_squares_coords self = {}"
  using assms
proof (rule make_moves_invariant, goal_cases)
  case 1
  show ?case by (simp add: reset_winner)
next
  case (2 s et e)
  from 2(2) have "FragmentedSquaresGame.winner s = None"
    by (simp add: is_valid_move_iff)
  then show ?case by (simp add: pm_winner pm_active)
qed

lemma invalid_reason_cases:
  "invalid_reason self et =
     (case edges self et of
        None \<Rightarrow> ''Edge does not exist or already removed''
      | Some e \<Rightarrow>
          if \<not> exists e then ''Edge does not exist or already removed''
          else if color e \<noteq> (case FragmentedSquaresGame.current_player self of
                                 LEFT_PLAYER \<Rightarrow> BLUE | RIGHT_PLAYER \<Rightarrow> RED)
          then ''Incorrect color (Player: '' @ player_str (FragmentedSquaresGame.current_player self)
                 @ '', Edge: '' @ (case color e of BLUE \<Rightarrow> ''Blue'' | RED \<Rightarrow> ''Red'') @ '')''
          else if get_squares_sharing_edge self et \<inter> active_squares_coords self = {}
          then ''Edge does not border any active squares''
          else ''Unknown reason'')"
proof -
  have "(\<not> (\<exists>sq \<in> get_squares_sharing_edge self et. sq \<in> active_squares_coords self)) =
      (get_squares_sharing_edge self et \<inter> active_squares_coords self = {})"
    by blast
  then show ?thesis
    unfolding invalid_reason_def Let_def
    by (cases "FragmentedSquaresGame.current_player self")
       (simp_all split: option.splits color.splits)
qed

subsection \<open>Runs with resets\<close>

lemma run_calls_snoc_all:
  "\<exists>self1. run_calls self calls = Inr self1 \<and>
     all_squares_coords self1 = all_squares_coords self \<and>
     run_calls self (calls @ more_calls) = run_calls self1 more_calls"
proof (induction calls arbitrary: self)
  case Nil
  show ?case by simp
next
  case (Cons c calls)
  show ?case
  proof (cases c)
    case (Move et)
    obtain r self2 where mm: "make_move self et = Inr (r, self2)"
      using make_move_total by blast
    then have "make_moves self [et] = Inr self2" by simp
    then have "all_squares_coords self2 = all_squares_coords self"
      by (rule make_moves_all)
    with Cons [of self2] mm Move show ?thesis by simp
  next
    case (Reset choice)
    with Cons [of "reset choice self"] show ?thesis by (simp add: reset_all)
  qed
qed

lemma reset_twice: "reset choice (reset choice' self) = reset choice self"
  by (simp add: reset_def initialize_edges_def get_squares_sharing_edge_def)

subsection \<open>The single square\<close>

lemma simple_init:
  "init simple_square choice = Inr (reset choice \<lparr>all_squares_coords = {(0, 0)},
         active_squares_coords = {}, edges = Map.empty, current_player = LEFT_PLAYER,
         winner = None, last_move_destructions = 0, move_history = []\<rparr>)"
  by (simp add: init_def simple_square_def)

lemma simple_potential:
  "potential_edges {(0, 0)} =
     {((0, 0), HORIZONTAL), ((0, 0), VERTICAL), ((- 1, 0), HORIZONTAL), ((0, - 1), VERTICAL)}"
  by (simp add: potential_edges_def)

lemma simple_sharing:
  assumes "all_squares_coords self = {(0, 0)}"
    and "et \<in> {((0, 0), HORIZONTAL), ((0, 0), VERTICAL), ((- 1, 0), HORIZONTAL), ((0, - 1), VERTICAL)}"
  shows "get_squares_sharing_edge self et = {(0, 0)}"
  using assms by (auto simp: get_squares_sharing_edge_def)

lemma simple_edges:
  assumes "self = reset choice \<lparr>all_squares_coords = {(0, 0)},
         active_squares_coords = {}, edges = Map.empty, current_player = LEFT_PLAYER,
         winner = None, last_move_destructions = 0, move_history = []\<rparr>"
  shows "edges self et =
     (if et \<in> {((0, 0), HORIZONTAL), ((0, 0), VERTICAL), ((- 1, 0), HORIZONTAL), ((0, - 1), VERTICAL)}
      then Some \<lparr>color = choice et, exists = True\<rparr> else None)"
proof (cases "et \<in> {((0, 0), HORIZONTAL), ((0, 0), VERTICAL), ((- 1, 0), HORIZONTAL), ((0, - 1), VERTICAL)}")
  case True
  have "get_squares_sharing_edge \<lparr>all_squares_coords = {(0, 0)},
         active_squares_coords = {}, edges = Map.empty, current_player = LEFT_PLAYER,
         winner = None, last_move_destructions = 0, move_history = []\<rparr> et = {(0, 0)}"
    using True by (intro simple_sharing) simp_all
  with True show ?thesis
    unfolding assms reset_edges by (simp add: simple_potential)
next
  case False
  then show ?thesis
    unfolding assms reset_edges by (simp add: simple_potential)
qed

subsection \<open>The example game, evaluated\<close>

lemma l_game0_reset:
  "l_game0 = reset by_orientation \<lparr>all_squares_coords = l_shape_squares,
         active_squares_coords = {}, edges = Map.empty, current_player = LEFT_PLAYER,
         winner = None, last_move_destructions = 0, move_history = []\<rparr>"
  by (simp add: l_game0_def init_def l_shape_squares_def)

lemma l_game0_all: "all_squares_coords l_game0 = {(0, 0), (0, 1), (1, 0)}"
  by (simp add: l_game0_reset reset_all l_shape_squares_def)

lemma l_game0_active: "active_squares_coords l_game0 = {(0, 0), (0, 1), (1, 0)}"
  by (simp add: l_game0_reset reset_active l_shape_squares_def)

lemma l_game0_winner: "FragmentedSquaresGame.winner l_game0 = None"
  by (simp add: l_game0_reset reset_winner)

lemma l_game0_player: "FragmentedSquaresGame.current_player l_game0 = LEFT_PLAYER"
  by (simp add: l_game0_reset reset_current_player)

lemma l_game0_history: "move_history l_game0 = []"
  by (simp add: l_game0_reset reset_history)

lemma l_game0_sharing_h00: "get_squares_sharing_edge l_game0 ((0, 0), HORIZONTAL) = {(0, 0), (1, 0)}"
  by (auto simp: get_squares_sharing_edge_def l_game0_all)

lemma l_game0_sharing_v01: "get_squares_sharing_edge l_game0 ((0, 1), VERTICAL) = {(0, 1)}"
  by (auto simp: get_squares_sharing_edge_def l_game0_all)

lemma l_game0_sharing_v10: "get_squares_sharing_edge l_game0 ((1, 0), VERTICAL) = {(1, 0)}"
  by (auto simp: get_squares_sharing_edge_def l_game0_all)

lemma l_game0_edge_h00:
  "edges l_game0 ((0, 0), HORIZONTAL) = Some \<lparr>color = BLUE, exists = True\<rparr>"
  by (simp add: l_game0_reset reset_edges potential_edges_def l_shape_squares_def
      get_squares_sharing_edge_def by_orientation_def)

lemma l_game0_edge_v01:
  "edges l_game0 ((0, 1), VERTICAL) = Some \<lparr>color = RED, exists = True\<rparr>"
  by (simp add: l_game0_reset reset_edges potential_edges_def l_shape_squares_def
      get_squares_sharing_edge_def by_orientation_def)

lemma l_game0_edge_v10:
  "edges l_game0 ((1, 0), VERTICAL) = Some \<lparr>color = RED, exists = True\<rparr>"
  by (simp add: l_game0_reset reset_edges potential_edges_def l_shape_squares_def
      get_squares_sharing_edge_def by_orientation_def)

lemma l_game0_valid: "is_valid_move l_game0 ((0, 0), HORIZONTAL)"
  by (simp add: is_valid_move_iff l_game0_winner l_game0_player l_game0_edge_h00
      l_game0_sharing_h00 l_game0_active)

lemma l_move1:
  "make_move l_game0 ((0, 0), HORIZONTAL) =
     Inr (perform_move l_game0 ((0, 0), HORIZONTAL) \<lparr>color = BLUE, exists = True\<rparr>)"
  using make_move_valid [OF l_game0_valid] by (simp add: l_game0_edge_h00)

lemma l_game1_perform:
  "l_game1 = snd (perform_move l_game0 ((0, 0), HORIZONTAL) \<lparr>color = BLUE, exists = True\<rparr>)"
  by (simp add: l_game1_def l_move1)

lemma l_game1_sharing [simp]: "get_squares_sharing_edge l_game1 = get_squares_sharing_edge l_game0"
  by (simp add: get_squares_sharing_edge_def fun_eq_iff l_game1_perform pm_all)

lemma l_game1_active: "active_squares_coords l_game1 = {(0, 1)}"
  by (auto simp: l_game1_perform pm_active l_game0_active l_game0_sharing_h00)

lemma l_game1_winner: "FragmentedSquaresGame.winner l_game1 = None"
  by (simp add: l_game1_perform pm_winner l_game0_active l_game0_sharing_h00 l_game0_winner)

lemma l_game1_player: "FragmentedSquaresGame.current_player l_game1 = RIGHT_PLAYER"
  by (simp add: l_game1_perform pm_current_player l_game0_active l_game0_sharing_h00
      l_game0_winner l_game0_player)

lemma l_game1_edge_v01:
  "edges l_game1 ((0, 1), VERTICAL) = Some \<lparr>color = RED, exists = True\<rparr>"
  by (simp add: l_game1_perform pm_edges l_game0_edge_v01)

lemma l_game1_edge_v10:
  "edges l_game1 ((1, 0), VERTICAL) = Some \<lparr>color = RED, exists = True\<rparr>"
  by (simp add: l_game1_perform pm_edges l_game0_edge_v10)

lemma l_game1_history:
  "move_history l_game1 =
     [\<lparr>turn = 1, player = LEFT_PLAYER, edge_removed = ((0, 0), HORIZONTAL),
       edge_color = ''Blue'', squares_destroyed = {(0, 0), (1, 0)},
       active_squares_before = {(0, 0), (0, 1), (1, 0)},
       active_squares_after = {(0, 1)}, game_over_after = False, winner = None\<rparr>]"
proof -
  have a: "{(0, 0), (0, 1), (1, 0)} - {(0, 0), (1, 0)} = {(0, 1 :: int) :: square}" by auto
  have b: "{(0, 0), (1, 0)} \<inter> {(0, 0), (0, 1), (1, 0)} = {(0, 0), (1, 0 :: int) :: square}" by auto
  show ?thesis
    by (simp add: l_game1_perform pm_history l_game0_history l_game0_player l_game0_active
        l_game0_sharing_h00 a b)
qed

lemma l_game1_valid: "is_valid_move l_game1 ((0, 1), VERTICAL)"
  by (simp add: is_valid_move_iff l_game1_winner l_game1_player l_game1_edge_v01
      l_game0_sharing_v01 l_game1_active)

lemma l_move2:
  "make_move l_game1 ((0, 1), VERTICAL) =
     Inr (perform_move l_game1 ((0, 1), VERTICAL) \<lparr>color = RED, exists = True\<rparr>)"
  using make_move_valid [OF l_game1_valid] by (simp add: l_game1_edge_v01)

lemma l_game2_perform:
  "l_game2 = snd (perform_move l_game1 ((0, 1), VERTICAL) \<lparr>color = RED, exists = True\<rparr>)"
  by (simp add: l_game2_def l_move2)

lemma l_game2_sharing [simp]: "get_squares_sharing_edge l_game2 = get_squares_sharing_edge l_game0"
  by (simp add: get_squares_sharing_edge_def fun_eq_iff l_game2_perform l_game1_perform pm_all)

lemma l_game2_active: "active_squares_coords l_game2 = {}"
  by (simp add: l_game2_perform pm_active l_game1_active l_game0_sharing_v01)

lemma l_game2_winner: "FragmentedSquaresGame.winner l_game2 = Some RIGHT_PLAYER"
  by (simp add: l_game2_perform pm_winner l_game1_active l_game0_sharing_v01 l_game1_player)

lemma l_game2_player: "FragmentedSquaresGame.current_player l_game2 = RIGHT_PLAYER"
  by (simp add: l_game2_perform pm_current_player l_game1_active l_game0_sharing_v01
      l_game1_player)

lemma l_game2_edge_v10:
  "edges l_game2 ((1, 0), VERTICAL) = Some \<lparr>color = RED, exists = True\<rparr>"
  by (simp add: l_game2_perform pm_edges l_game1_edge_v10)

lemma l_game2_history:
  "move_history l_game2 =
     [\<lparr>turn = 1, player = LEFT_PLAYER, edge_removed = ((0, 0), HORIZONTAL),
       edge_color = ''Blue'', squares_destroyed = {(0, 0), (1, 0)},
       active_squares_before = {(0, 0), (0, 1), (1, 0)},
       active_squares_after = {(0, 1)}, game_over_after = False, winner = None\<rparr>,
      \<lparr>turn = 2, player = RIGHT_PLAYER, edge_removed = ((0, 1), VERTICAL),
       edge_color = ''Red'', squares_destroyed = {(0, 1)},
       active_squares_before = {(0, 1)},
       active_squares_after = {}, game_over_after = True, winner = Some RIGHT_PLAYER\<rparr>]"
  by (simp add: l_game2_perform pm_history l_game1_history l_game1_player l_game1_active
      l_game0_sharing_v01)

lemma l_run1: "make_moves l_game0 [((0, 0), HORIZONTAL)] = Inr l_game1"
  by (simp add: l_move1 l_game1_perform split_beta)

lemma l_run2: "make_moves l_game0 [((0, 0), HORIZONTAL), ((0, 1), VERTICAL)] = Inr l_game2"
  by (simp add: l_move1 l_move2 l_game1_perform [symmetric] l_game2_perform split_beta)

lemma l_steps:
  "successful_moves l_game0 [((0, 0), HORIZONTAL), ((0, 1), VERTICAL)] =
     [(l_game0, l_game1), (l_game1, l_game2)]"
  by (simp add: successful_moves_performed [OF l_game0_valid l_game0_edge_h00]
      l_game1_perform [symmetric]
      successful_moves_performed [OF l_game1_valid l_game1_edge_v01]
      l_game2_perform [symmetric] del: successful_moves.simps(2))

section \<open>The claims\<close>

subsection \<open>Legality\<close>

text \<open>
  Claim C1. \<open>is_valid_move\<close> holds for an edge exactly when the game has no winner,
  the edge is in \<open>self.edges\<close> with \<open>exists\<close> true, its colour is the colour of the
  current player (Left owns Blue, Right owns Red), and at least one of the squares
  sharing the edge is active.
\<close>

theorem is_valid_move_characterisation:
  "is_valid_move self et \<longleftrightarrow>
     FragmentedSquaresGame.winner self = None \<and>
     (\<exists>e. edges self et = Some e \<and> exists e \<and>
        color e = (case FragmentedSquaresGame.current_player self of
                     LEFT_PLAYER \<Rightarrow> BLUE | RIGHT_PLAYER \<Rightarrow> RED)) \<and>
     get_squares_sharing_edge self et \<inter> active_squares_coords self \<noteq> {}"
  by (cases "FragmentedSquaresGame.current_player self")
     (auto simp: is_valid_move_def Let_def split: option.splits color.splits)

subsection \<open>A legal move\<close>

text \<open>
  Claim C2. A legal move marks the edge as removed, and the squares it takes out of the
  active set are exactly the squares sharing the edge that were active before the move;
  there are at most two of them, and the logged \<open>squares_destroyed\<close>, the counter
  \<open>last_move_destructions\<close> and the number in the returned message agree with them.
\<close>

theorem make_move_destroys_bordered_active:
  assumes "is_valid_move self et"
  shows "let destroyed = get_squares_sharing_edge self et \<inter> active_squares_coords self in
     \<exists>e self'. edges self et = Some e \<and>
       make_move self et =
         Inr ((True, ''Destroyed '' @ str_nat (card destroyed) @ '' square(s).''), self') \<and>
       edges self' = (edges self)(et \<mapsto> e\<lparr>exists := False\<rparr>) \<and>
       active_squares_coords self' = active_squares_coords self - destroyed \<and>
       active_squares_coords self - active_squares_coords self' = destroyed \<and>
       card destroyed \<le> 2 \<and>
       squares_destroyed (last (move_history self')) = destroyed \<and>
       last_move_destructions self' = card destroyed"
proof -
  define destroyed where "destroyed = get_squares_sharing_edge self et \<inter> active_squares_coords self"
  from assms obtain e where e: "edges self et = Some e"
    and mm: "make_move self et = Inr (perform_move self et e)"
    using make_move_valid by blast
  define self' where "self' = snd (perform_move self et e)"
  have res: "make_move self et =
      Inr ((True, ''Destroyed '' @ str_nat (card destroyed) @ '' square(s).''), self')"
    using mm pm_result [of self et e] by (simp add: self'_def destroyed_def prod_eq_iff)
  have act: "active_squares_coords self' = active_squares_coords self - destroyed"
    by (auto simp: self'_def destroyed_def pm_active)
  have gone: "active_squares_coords self - active_squares_coords self' = destroyed"
    by (auto simp: self'_def destroyed_def pm_active)
  have "card destroyed \<le> card (get_squares_sharing_edge self et)"
    unfolding destroyed_def by (intro card_mono sharing_finite) simp
  then have two: "card destroyed \<le> 2"
    using sharing_card [of self et] by linarith
  have logged: "squares_destroyed (last (move_history self')) = destroyed"
    by (simp add: self'_def destroyed_def pm_history)
  have count: "last_move_destructions self' = card destroyed"
    by (simp add: self'_def destroyed_def pm_destructions)
  have "edges self' = (edges self)(et \<mapsto> e\<lparr>exists := False\<rparr>)"
    by (simp add: self'_def pm_edges)
  with e res act gone two logged count show ?thesis
    unfolding Let_def destroyed_def [symmetric] by blast
qed

theorem make_move_destroys_bordered_active_witness:
  "is_valid_move (projr (init simple_square (\<lambda>_. BLUE))) ((0, 0), HORIZONTAL) \<and>
   (\<exists>self'. make_move (projr (init simple_square (\<lambda>_. BLUE))) ((0, 0), HORIZONTAL) =
        Inr ((True, ''Destroyed 1 square(s).''), self') \<and>
      active_squares_coords self' = {} \<and>
      squares_destroyed (last (move_history self')) = {(0, 0)} \<and>
      last_move_destructions self' = 1)"
proof -
  define s where "s = projr (init simple_square (\<lambda>_. BLUE))"
  define et :: edge_tuple where "et = ((0, 0), HORIZONTAL)"
  have s: "s = reset (\<lambda>_. BLUE) \<lparr>all_squares_coords = {(0, 0)},
         active_squares_coords = {}, edges = Map.empty, current_player = LEFT_PLAYER,
         winner = None, last_move_destructions = 0, move_history = []\<rparr>"
    by (simp add: s_def init_def simple_square_def)
  have sh: "get_squares_sharing_edge s et = {(0, 0)}"
    by (simp add: s et_def get_squares_sharing_edge_def)
  have act: "active_squares_coords s = {(0, 0)}"
    by (simp add: s reset_active)
  have v: "is_valid_move s et"
    unfolding is_valid_move_iff sh act
    by (simp add: s reset_simps et_def potential_edges_def get_squares_sharing_edge_def)
  have one: "str_nat (Suc 0) = ''1''"
    by (simp add: str_nat.simps digit_char_def)
  from make_move_destroys_bordered_active [OF v] v show ?thesis
    unfolding Let_def sh act s_def [symmetric] et_def [symmetric]
    by (auto simp: one)
qed

subsection \<open>A refused move\<close>

text \<open>
  Claim C4. When \<open>is_valid_move\<close> is false, \<open>make_move\<close> returns failure and the whole
  object (active squares, edges, current player, winner, history) is as before.
\<close>

theorem make_move_invalid_unchanged:
  assumes "\<not> is_valid_move self et"
  shows "\<exists>message. make_move self et = Inr ((False, message), self)"
  using assms by (simp add: make_move_def)


theorem make_move_invalid_unchanged_witness:
  "\<not> is_valid_move (projr (init simple_square (\<lambda>_. RED))) ((0, 0), HORIZONTAL) \<and>
   (\<exists>message. make_move (projr (init simple_square (\<lambda>_. RED))) ((0, 0), HORIZONTAL) =
      Inr ((False, message), projr (init simple_square (\<lambda>_. RED))))"
proof -
  define s where "s = projr (init simple_square (\<lambda>_. RED))"
  have v: "\<not> is_valid_move s ((0, 0), HORIZONTAL)"
    by (simp add: is_valid_move_iff s_def init_def simple_square_def reset_simps
        potential_edges_def)
  from make_move_invalid_unchanged [OF v] v show ?thesis
    unfolding s_def by simp
qed

subsection \<open>The winner\<close>

text \<open>
  Claim C3. The winner is set exactly by the move that empties the active set, to the
  player who made that move, and the current player stays that player; once a winner is
  set every further \<open>make_move\<close> is refused and leaves the object, hence the winner,
  as it is.
\<close>

theorem winner_set_once_and_final:
  "\<exists>result self'. make_move self et = Inr (result, self') \<and>
     (FragmentedSquaresGame.winner self = None \<longrightarrow>
        (FragmentedSquaresGame.winner self' \<noteq> None \<longleftrightarrow>
           fst result \<and> active_squares_coords self' = {}) \<and>
        (FragmentedSquaresGame.winner self' \<noteq> None \<longrightarrow>
           FragmentedSquaresGame.winner self' = Some (FragmentedSquaresGame.current_player self) \<and>
           FragmentedSquaresGame.current_player self' = FragmentedSquaresGame.current_player self)) \<and>
     (FragmentedSquaresGame.winner self \<noteq> None \<longrightarrow>
        \<not> fst result \<and> self' = self \<and> (\<forall>ets. make_moves self ets = Inr self))"
proof (cases rule: make_move_cases [of self et])
  case refused
  have "\<forall>ets. make_moves self ets = Inr self" if "FragmentedSquaresGame.winner self \<noteq> None"
    using that by (simp add: make_moves_finished)
  with refused(2) show ?thesis by auto
next
  case (performed e)
  define self' where "self' = snd (perform_move self et e)"
  from performed(1) have none: "FragmentedSquaresGame.winner self = None"
    by (simp add: is_valid_move_iff)
  have mm: "make_move self et = Inr (fst (perform_move self et e), self')"
    using performed(4) by (simp add: self'_def)
  have ok: "fst (fst (perform_move self et e))"
    by (simp add: pm_result)
  have w: "FragmentedSquaresGame.winner self' =
      (if active_squares_coords self' = {}
       then Some (FragmentedSquaresGame.current_player self) else None)"
    by (simp add: self'_def pm_winner pm_active none)
  have p: "active_squares_coords self' = {} \<Longrightarrow>
      FragmentedSquaresGame.current_player self' = FragmentedSquaresGame.current_player self"
    by (simp add: self'_def pm_current_player pm_active)
  from mm ok w p none show ?thesis by (auto split: if_splits)
qed

theorem winner_set_once_and_final_witness:
  "FragmentedSquaresGame.winner l_game1 = None \<and>
   make_move l_game1 ((0, 1), VERTICAL) =
     Inr ((True, ''Destroyed 1 square(s).''), l_game2) \<and>
   active_squares_coords l_game2 = {} \<and>
   FragmentedSquaresGame.winner l_game2 = Some RIGHT_PLAYER \<and>
   FragmentedSquaresGame.current_player l_game1 = RIGHT_PLAYER \<and>
   FragmentedSquaresGame.current_player l_game2 = RIGHT_PLAYER \<and>
   FragmentedSquaresGame.winner l_game2 \<noteq> None \<and>
   (\<exists>result. make_move l_game2 ((1, 0), VERTICAL) = Inr (result, l_game2) \<and> \<not> fst result) \<and>
   make_moves l_game2 [((1, 0), VERTICAL), ((0, 0), VERTICAL)] = Inr l_game2"
proof -
  have one: "str_nat (Suc 0) = ''1''"
    by (simp add: str_nat.simps digit_char_def)
  have m2: "make_move l_game1 ((0, 1), VERTICAL) =
     Inr ((True, ''Destroyed 1 square(s).''), l_game2)"
    using pm_result [of l_game1 "((0, 1), VERTICAL)" "\<lparr>color = RED, exists = True\<rparr>"]
    by (simp add: l_move2 l_game2_perform prod_eq_iff l_game0_sharing_v01 l_game1_active one)
  have fin: "FragmentedSquaresGame.winner l_game2 \<noteq> None"
    by (simp add: l_game2_winner)
  from winner_set_once_and_final [of l_game1 "((0, 1), VERTICAL)"]
  have a: "FragmentedSquaresGame.winner l_game2 = Some (FragmentedSquaresGame.current_player l_game1) \<and>
           FragmentedSquaresGame.current_player l_game2 = FragmentedSquaresGame.current_player l_game1"
    by (simp add: m2 l_game1_winner l_game2_active)
  from winner_set_once_and_final [of l_game2 "((1, 0), VERTICAL)"] fin
  have b: "(\<exists>result. make_move l_game2 ((1, 0), VERTICAL) = Inr (result, l_game2) \<and> \<not> fst result)
      \<and> (\<forall>ets. make_moves l_game2 ets = Inr l_game2)"
    by auto
  from b have c: "make_moves l_game2 [((1, 0), VERTICAL), ((0, 0), VERTICAL)] = Inr l_game2"
    by blast
  from a b m2 fin c show ?thesis
    by (simp add: l_game1_winner l_game2_active l_game1_player del: make_moves.simps)
qed

subsection \<open>Monotone destruction\<close>

text \<open>
  Claim C7. Along every run of \<open>make_move\<close> calls after a reset, the active set stays
  inside the original shape and only shrinks: a square that is not active never becomes
  active again. The key set of \<open>self.edges\<close> and the colours stay the same, and an
  \<open>exists\<close> flag that is false stays false.
\<close>

theorem destruction_is_monotone:
  "\<exists>self1 self2.
     make_moves (reset choice self) ets = Inr self1 \<and>
     make_moves self1 ets' = Inr self2 \<and>
     make_moves (reset choice self) (ets @ ets') = Inr self2 \<and>
     active_squares_coords self1 \<subseteq> all_squares_coords self \<and>
     active_squares_coords self2 \<subseteq> active_squares_coords self1 \<and>
     (\<forall>sq. sq \<notin> active_squares_coords self1 \<longrightarrow> sq \<notin> active_squares_coords self2) \<and>
     all_squares_coords self2 = all_squares_coords self \<and>
     dom (edges self2) = dom (edges self1) \<and>
     (\<forall>et e2. edges self2 et = Some e2 \<longrightarrow>
        (\<exists>e1. edges self1 et = Some e1 \<and> color e2 = color e1 \<and> (exists e2 \<longrightarrow> exists e1)))"
proof -
  obtain self1 where r1: "make_moves (reset choice self) ets = Inr self1"
    using make_moves_total by blast
  obtain self2 where r2: "make_moves self1 ets' = Inr self2"
    using make_moves_total by blast
  have r12: "make_moves (reset choice self) (ets @ ets') = Inr self2"
    using make_moves_append [OF r1] r2 by simp
  have "active_squares_coords self1 \<subseteq> active_squares_coords (reset choice self)"
    using r1 by (rule make_moves_active)
  then have shape: "active_squares_coords self1 \<subseteq> all_squares_coords self"
    by (simp add: reset_active)
  have mono: "active_squares_coords self2 \<subseteq> active_squares_coords self1"
    using r2 by (rule make_moves_active)
  have "all_squares_coords self2 = all_squares_coords (reset choice self)"
    using r12 by (rule make_moves_all)
  then have all: "all_squares_coords self2 = all_squares_coords self"
    by (simp add: reset_all)
  have ed: "case edges self2 et of
        None \<Rightarrow> edges self1 et = None
      | Some e' \<Rightarrow> \<exists>e. edges self1 et = Some e \<and> color e' = color e \<and> (exists e \<or> \<not> exists e')"
    for et using r2 by (rule make_moves_edges)
  have dom: "dom (edges self2) = dom (edges self1)"
  proof (rule set_eqI)
    fix et
    show "et \<in> dom (edges self2) \<longleftrightarrow> et \<in> dom (edges self1)"
      using ed [of et] by (auto split: option.splits)
  qed
  have flags: "\<exists>e1. edges self1 et = Some e1 \<and> color e2 = color e1 \<and> (exists e2 \<longrightarrow> exists e1)"
    if "edges self2 et = Some e2" for et e2
    using ed [of et] that by auto
  from r1 r2 r12 shape mono all dom flags show ?thesis by blast
qed

theorem destruction_is_monotone_witness:
  "make_moves l_game0 [((0, 0), HORIZONTAL)] = Inr l_game1 \<and>
   make_moves l_game1 [((0, 1), VERTICAL)] = Inr l_game2 \<and>
   active_squares_coords l_game1 \<subseteq> l_shape_squares \<and>
   active_squares_coords l_game2 \<subseteq> active_squares_coords l_game1 \<and>
   all_squares_coords l_game2 = l_shape_squares \<and>
   dom (edges l_game2) = dom (edges l_game1) \<and>
   edges l_game1 ((0, 1), VERTICAL) = Some \<lparr>color = RED, exists = True\<rparr> \<and>
   edges l_game2 ((0, 1), VERTICAL) = Some \<lparr>color = RED, exists = False\<rparr>"
proof -
  have r2: "make_moves l_game1 [((0, 1), VERTICAL)] = Inr l_game2"
    by (simp add: l_move2 l_game2_perform split_beta)
  have e2: "edges l_game2 ((0, 1), VERTICAL) = Some \<lparr>color = RED, exists = False\<rparr>"
    by (simp add: l_game2_perform pm_edges)
  from destruction_is_monotone [of by_orientation
      "\<lparr>all_squares_coords = l_shape_squares,
         active_squares_coords = {}, edges = Map.empty, current_player = LEFT_PLAYER,
         winner = None, last_move_destructions = 0, move_history = []\<rparr>"
      "[((0, 0), HORIZONTAL)]" "[((0, 1), VERTICAL)]"]
  have "active_squares_coords l_game1 \<subseteq> l_shape_squares \<and>
   active_squares_coords l_game2 \<subseteq> active_squares_coords l_game1 \<and>
   all_squares_coords l_game2 = l_shape_squares \<and>
   dom (edges l_game2) = dom (edges l_game1)"
    unfolding l_game0_reset [symmetric]
    by (simp add: l_run1 r2 del: make_moves.simps)
  with r2 e2 show ?thesis
    by (simp add: l_run1 l_game1_edge_v01 del: make_moves.simps)
qed

subsection \<open>The move history\<close>

text \<open>
  Claim C6. After a run with \<open>n\<close> successful moves since the last reset (the
  constructor ends with one), the history has \<open>n\<close> records with turn numbers
  \<open>1, \<dots>, n\<close> in order; the \<open>active_squares_before\<close> and \<open>active_squares_after\<close> of
  each record are the active sets just before and just after that move; and the last
  record's \<open>active_squares_after\<close> is the live active set.
\<close>

theorem history_integrity:
  "\<exists>final. make_moves (reset choice self) ets = Inr final \<and>
     (let steps = successful_moves (reset choice self) ets; n = length steps in
        length (move_history final) = n \<and>
        total_moves (get_state_summary final) = n \<and>
        map turn (move_history final) = [1..<n + 1] \<and>
        map active_squares_before (move_history final) =
          map (\<lambda>(before, after). active_squares_coords before) steps \<and>
        map active_squares_after (move_history final) =
          map (\<lambda>(before, after). active_squares_coords after) steps \<and>
        (0 < n \<longrightarrow>
           active_squares_after (last (move_history final)) = active_squares_coords final))"
proof -
  obtain final where run: "make_moves (reset choice self) ets = Inr final"
    using make_moves_total by blast
  define steps where "steps = successful_moves (reset choice self) ets"
  note h = history_of_run [OF run, unfolded reset_history, folded steps_def]
  from h have len: "length (move_history final) = length steps" by simp
  then have tot: "total_moves (get_state_summary final) = length steps"
    by (simp add: get_state_summary_def)
  from h have turns: "map turn (move_history final) = [1..<length steps + 1]"
    by (simp del: upt_Suc)
  from h have before: "map active_squares_before (move_history final) =
      map (\<lambda>(before, after). active_squares_coords before) steps" by simp
  from h have after: "map active_squares_after (move_history final) =
      map (\<lambda>(before, after). active_squares_coords after) steps" by simp
  have live: "active_squares_after (last (move_history final)) = active_squares_coords final"
    if "0 < length steps"
  proof -
    from that have ne: "steps \<noteq> []" by auto
    with len have ne': "move_history final \<noteq> []" by auto
    have "active_squares_after (last (move_history final)) =
        last (map active_squares_after (move_history final))"
      using ne' by (simp add: last_map)
    also have "\<dots> = active_squares_coords (snd (last steps))"
      unfolding after using ne by (simp add: last_map split_beta)
    also have "\<dots> = active_squares_coords final"
      using h ne by simp
    finally show ?thesis .
  qed
  from run len tot turns before after live show ?thesis
    unfolding Let_def steps_def [symmetric] by blast
qed

theorem history_integrity_witness:
  "make_moves l_game0 [((0, 0), HORIZONTAL), ((0, 1), VERTICAL)] = Inr l_game2 \<and>
   length (successful_moves l_game0 [((0, 0), HORIZONTAL), ((0, 1), VERTICAL)]) = 2 \<and>
   length (move_history l_game2) = 2 \<and>
   map turn (move_history l_game2) = [1, 2] \<and>
   map active_squares_before (move_history l_game2) =
     [active_squares_coords l_game0, active_squares_coords l_game1] \<and>
   map active_squares_after (move_history l_game2) =
     [active_squares_coords l_game1, active_squares_coords l_game2] \<and>
   active_squares_after (last (move_history l_game2)) = active_squares_coords l_game2"
proof -
  from history_integrity [of by_orientation
      "\<lparr>all_squares_coords = l_shape_squares,
         active_squares_coords = {}, edges = Map.empty, current_player = LEFT_PLAYER,
         winner = None, last_move_destructions = 0, move_history = []\<rparr>"
      "[((0, 0), HORIZONTAL), ((0, 1), VERTICAL)]"]
  show ?thesis
    unfolding l_game0_reset [symmetric] l_run2 l_steps Let_def
    by simp
qed

subsection \<open>Every move destroys a square\<close>

text \<open>
  Claim C10. A successful move destroys one or two squares, never none; hence a game on
  a shape of \<open>N\<close> squares has at most \<open>N\<close> successful moves.
\<close>

theorem successful_move_destroys_a_square:
  "(is_valid_move self et \<longrightarrow>
      (\<exists>message self'. make_move self et = Inr ((True, message), self') \<and>
         squares_destroyed (last (move_history self')) =
           active_squares_coords self - active_squares_coords self' \<and>
         squares_destroyed (last (move_history self')) \<noteq> {} \<and>
         card (squares_destroyed (last (move_history self'))) \<in> {1, 2} \<and>
         last_move_destructions self' \<in> {1, 2})) \<and>
   (finite (all_squares_coords start) \<longrightarrow>
      (\<exists>final. make_moves (reset choice start) ets = Inr final \<and>
         length (successful_moves (reset choice start) ets) \<le> card (all_squares_coords start) \<and>
         length (move_history final) \<le> card (all_squares_coords start) \<and>
         total_moves (get_state_summary final) \<le> card (all_squares_coords start)))"
proof (intro conjI impI)
  assume valid: "is_valid_move self et"
  then obtain e where e: "edges self et = Some e"
    and mm: "make_move self et = Inr (perform_move self et e)"
    using make_move_valid by blast
  define self' where "self' = snd (perform_move self et e)"
  define destroyed where
    "destroyed = get_squares_sharing_edge self et \<inter> active_squares_coords self"
  have res: "make_move self et =
      Inr ((True, ''Destroyed '' @ str_nat (card destroyed) @ '' square(s).''), self')"
    using mm pm_result [of self et e] by (simp add: self'_def destroyed_def prod_eq_iff)
  have logged: "squares_destroyed (last (move_history self')) = destroyed"
    by (simp add: self'_def destroyed_def pm_history)
  have gone: "destroyed = active_squares_coords self - active_squares_coords self'"
    by (auto simp: self'_def destroyed_def pm_active)
  from valid have ne: "destroyed \<noteq> {}"
    by (simp add: is_valid_move_iff destroyed_def)
  have fin: "finite destroyed"
    unfolding destroyed_def using sharing_finite by simp
  have "card destroyed \<le> card (get_squares_sharing_edge self et)"
    unfolding destroyed_def by (intro card_mono sharing_finite) simp
  then have "card destroyed \<le> 2"
    using sharing_card [of self et] by linarith
  moreover from ne fin have "0 < card destroyed"
    by (simp add: card_gt_0_iff)
  ultimately have c: "card destroyed \<in> {1, 2}" by auto
  have count: "last_move_destructions self' = card destroyed"
    by (simp add: self'_def destroyed_def pm_destructions)
  from res logged gone ne c count
  show "\<exists>message self'. make_move self et = Inr ((True, message), self') \<and>
         squares_destroyed (last (move_history self')) =
           active_squares_coords self - active_squares_coords self' \<and>
         squares_destroyed (last (move_history self')) \<noteq> {} \<and>
         card (squares_destroyed (last (move_history self'))) \<in> {1, 2} \<and>
         last_move_destructions self' \<in> {1, 2}"
    by (intro exI [of _ "''Destroyed '' @ str_nat (card destroyed) @ '' square(s).''"]
        exI [of _ self']) simp
next
  assume fin: "finite (all_squares_coords start)"
  obtain final where run: "make_moves (reset choice start) ets = Inr final"
    using make_moves_total by blast
  from fin have "finite (active_squares_coords (reset choice start))"
    by (simp add: reset_active)
  from moves_bounded [OF run this]
  have b: "length (successful_moves (reset choice start) ets) \<le> card (all_squares_coords start)"
    by (simp add: reset_active)
  from history_of_run [OF run]
  have "length (move_history final) = length (successful_moves (reset choice start) ets)"
    by (simp add: reset_history)
  with b run
  show "\<exists>final. make_moves (reset choice start) ets = Inr final \<and>
         length (successful_moves (reset choice start) ets) \<le> card (all_squares_coords start) \<and>
         length (move_history final) \<le> card (all_squares_coords start) \<and>
         total_moves (get_state_summary final) \<le> card (all_squares_coords start)"
    by (simp add: get_state_summary_def)
qed

theorem successful_move_destroys_a_square_witness:
  "is_valid_move l_game1 ((0, 1), VERTICAL) \<and>
   make_move l_game1 ((0, 1), VERTICAL) = Inr ((True, ''Destroyed 1 square(s).''), l_game2) \<and>
   squares_destroyed (last (move_history l_game2)) = {(0, 1)} \<and>
   last_move_destructions l_game2 = 1 \<and>
   finite l_shape_squares \<and> card l_shape_squares = 3 \<and>
   make_moves l_game0 [((0, 0), HORIZONTAL), ((0, 1), VERTICAL)] = Inr l_game2 \<and>
   length (move_history l_game2) \<le> 3"
proof -
  let ?blank = "\<lparr>all_squares_coords = l_shape_squares,
         active_squares_coords = {}, edges = Map.empty, current_player = LEFT_PLAYER,
         winner = None, last_move_destructions = 0, move_history = []\<rparr>"
  have one: "str_nat (Suc 0) = ''1''"
    by (simp add: str_nat.simps digit_char_def)
  have m2: "make_move l_game1 ((0, 1), VERTICAL) =
     Inr ((True, ''Destroyed 1 square(s).''), l_game2)"
    using pm_result [of l_game1 "((0, 1), VERTICAL)" "\<lparr>color = RED, exists = True\<rparr>"]
    by (simp add: l_move2 l_game2_perform prod_eq_iff l_game0_sharing_v01 l_game1_active one)
  have fin: "finite l_shape_squares" and c: "card l_shape_squares = 3"
    by (simp_all add: l_shape_squares_def)
  have fin': "finite (all_squares_coords ?blank)"
    using fin by simp
  from successful_move_destroys_a_square [of l_game1 "((0, 1), VERTICAL)" ?blank by_orientation
      "[((0, 0), HORIZONTAL), ((0, 1), VERTICAL)]"]
  have "last_move_destructions l_game2 \<in> {1, 2} \<and> length (move_history l_game2) \<le> 3"
    unfolding l_game0_reset [symmetric] l_run2
    using l_game1_valid fin c by (simp add: m2)
  moreover have "squares_destroyed (last (move_history l_game2)) = {(0, 1)}"
    by (simp add: l_game2_history)
  moreover have "last_move_destructions l_game2 = 1"
    by (simp add: l_game2_perform pm_destructions l_game0_sharing_v01 l_game1_active)
  ultimately show ?thesis
    using l_game1_valid m2 fin c l_run2 by simp
qed

subsection \<open>Reset\<close>

text \<open>
  Claim C9. After any sequence of moves and resets, whether or not the game was
  finished, a reset leaves the active set equal to the original shape (so the summary
  counts all its squares), no winner, Left as the current player and an empty history;
  a second reset gives the same again.
\<close>

theorem reset_restores_initial_state:
  "\<exists>self1. run_calls self calls = Inr self1 \<and>
     run_calls self (calls @ [Reset choice]) = Inr (reset choice self1) \<and>
     all_squares_coords (reset choice self1) = all_squares_coords self \<and>
     active_squares_coords (reset choice self1) = all_squares_coords self \<and>
     FragmentedSquaresGame.winner (reset choice self1) = None \<and>
     FragmentedSquaresGame.current_player (reset choice self1) = LEFT_PLAYER \<and>
     move_history (reset choice self1) = [] \<and>
     get_state_summary (reset choice self1) =
       \<lparr>active_squares = card (all_squares_coords self), current_player = LEFT_PLAYER,
        winner = None, total_moves = 0\<rparr> \<and>
     reset choice (reset choice' self1) = reset choice self1"
proof -
  obtain self1 where run: "run_calls self calls = Inr self1"
    and all: "all_squares_coords self1 = all_squares_coords self"
    and snoc: "run_calls self (calls @ [Reset choice]) = run_calls self1 [Reset choice]"
    using run_calls_snoc_all [of self calls "[Reset choice]"] by blast
  have "run_calls self (calls @ [Reset choice]) = Inr (reset choice self1)"
    using snoc by simp
  moreover have "get_state_summary (reset choice self1) =
       \<lparr>active_squares = card (all_squares_coords self), current_player = LEFT_PLAYER,
        winner = None, total_moves = 0\<rparr>"
    by (simp add: get_state_summary_def reset_simps all)
  ultimately show ?thesis
    using run all by (simp add: reset_simps reset_twice)
qed

subsection \<open>The single square\<close>

text \<open>
  Claim C8. On the shape \<open>{(0, 0)}\<close> the constructor creates exactly four edges, each
  bordering the square \<open>(0, 0)\<close>. A successful \<open>make_move\<close> on any of them destroys
  that square, makes the mover (Left, who starts) the winner at once and ends the game
  after one move.
\<close>

theorem single_square_game:
  "\<exists>self. init simple_square choice = Inr self \<and>
     dom (edges self) =
       {((0, 0), HORIZONTAL), ((0, 0), VERTICAL), ((- 1, 0), HORIZONTAL), ((0, - 1), VERTICAL)} \<and>
     card (dom (edges self)) = 4 \<and>
     (\<forall>et \<in> dom (edges self).
        get_squares_sharing_edge self et = {(0, 0)} \<and>
        edges self et = Some \<lparr>color = choice et, exists = True\<rparr>) \<and>
     (\<forall>et. is_valid_move self et \<longleftrightarrow> et \<in> dom (edges self) \<and> choice et = BLUE) \<and>
     (\<forall>et result self'. make_move self et = Inr (result, self') \<and> fst result \<longrightarrow>
        et \<in> dom (edges self) \<and>
        squares_destroyed (last (move_history self')) = {(0, 0)} \<and>
        active_squares_coords self' = {} \<and>
        FragmentedSquaresGame.current_player self = LEFT_PLAYER \<and>
        FragmentedSquaresGame.winner self' = Some LEFT_PLAYER \<and>
        game_over_after (last (move_history self')) \<and>
        get_state_summary self' =
          \<lparr>active_squares = 0, current_player = LEFT_PLAYER,
           winner = Some LEFT_PLAYER, total_moves = 1\<rparr> \<and>
        (\<forall>et'. \<not> is_valid_move self' et'))"
proof -
  let ?E = "{((0, 0), HORIZONTAL), ((0, 0), VERTICAL), ((- 1, 0), HORIZONTAL),
             ((0, - 1), VERTICAL)} :: edge_tuple set"
  define self where "self = reset choice \<lparr>all_squares_coords = {(0, 0)},
         active_squares_coords = {}, edges = Map.empty, current_player = LEFT_PLAYER,
         winner = None, last_move_destructions = 0, move_history = []\<rparr>"
  have init: "init simple_square choice = Inr self"
    by (simp add: simple_init self_def)
  have all: "all_squares_coords self = {(0, 0)}"
    and act: "active_squares_coords self = {(0, 0)}"
    and win: "FragmentedSquaresGame.winner self = None"
    and pl: "FragmentedSquaresGame.current_player self = LEFT_PLAYER"
    and hist: "move_history self = []"
    by (simp_all add: self_def reset_simps)
  have ed: "edges self et = (if et \<in> ?E then Some \<lparr>color = choice et, exists = True\<rparr> else None)"
    for et by (rule simple_edges) (rule self_def)
  have dom: "dom (edges self) = ?E"
    by (auto simp: ed dom_def)
  have card: "card (dom (edges self)) = 4"
    unfolding dom by simp
  have sh: "get_squares_sharing_edge self et = {(0, 0)}" if "et \<in> ?E" for et
    using all that by (rule simple_sharing)
  have each: "\<forall>et \<in> dom (edges self).
        get_squares_sharing_edge self et = {(0, 0)} \<and>
        edges self et = Some \<lparr>color = choice et, exists = True\<rparr>"
    unfolding dom using sh ed by simp
  have valid: "is_valid_move self et \<longleftrightarrow> et \<in> dom (edges self) \<and> choice et = BLUE" for et
  proof (cases "et \<in> ?E")
    case True
    then show ?thesis
      unfolding dom is_valid_move_iff sh [OF True] by (simp add: win pl ed act)
  next
    case False
    then show ?thesis
      unfolding dom is_valid_move_iff by (simp add: ed)
  qed
  have move: "et \<in> dom (edges self) \<and>
        squares_destroyed (last (move_history self')) = {(0, 0)} \<and>
        active_squares_coords self' = {} \<and>
        FragmentedSquaresGame.current_player self = LEFT_PLAYER \<and>
        FragmentedSquaresGame.winner self' = Some LEFT_PLAYER \<and>
        game_over_after (last (move_history self')) \<and>
        get_state_summary self' =
          \<lparr>active_squares = 0, current_player = LEFT_PLAYER,
           winner = Some LEFT_PLAYER, total_moves = 1\<rparr> \<and>
        (\<forall>et'. \<not> is_valid_move self' et')"
    if mm: "make_move self et = Inr (result, self')" and ok: "fst result"
    for et result self'
  proof (cases rule: make_move_cases [of self et])
    case refused
    from mm [unfolded refused(2)] have "\<not> fst result" by auto
    with ok show ?thesis by contradiction
  next
    case (performed e)
    from performed(1) have in_dom: "et \<in> dom (edges self)"
      by (simp add: valid)
    then have s: "get_squares_sharing_edge self et = {(0, 0)}"
      using sh dom by simp
    from mm performed(4) have self': "self' = snd (perform_move self et e)"
      by (simp add: prod_eq_iff)
    have a': "active_squares_coords self' = {}"
      by (simp add: self' pm_active s act)
    have w': "FragmentedSquaresGame.winner self' = Some LEFT_PLAYER"
      by (simp add: self' pm_winner s act pl)
    have p': "FragmentedSquaresGame.current_player self' = LEFT_PLAYER"
      by (simp add: self' pm_current_player s act pl)
    have h': "move_history self' =
       [\<lparr>turn = 1, player = LEFT_PLAYER, edge_removed = et,
         edge_color = (if color e = BLUE then ''Blue'' else ''Red''),
         squares_destroyed = {(0, 0)}, active_squares_before = {(0, 0)},
         active_squares_after = {}, game_over_after = True,
         winner = Some LEFT_PLAYER\<rparr>]"
      by (simp add: self' pm_history s act pl hist)
    have over: "\<not> is_valid_move self' et'" for et'
      by (simp add: is_valid_move_iff w')
    from in_dom a' w' p' over show ?thesis
      by (simp add: h' pl get_state_summary_def)
  qed
  have valid_all: "\<forall>et. is_valid_move self et \<longleftrightarrow> et \<in> dom (edges self) \<and> choice et = BLUE"
    using valid by (rule allI)
  have move_all: "\<forall>et result self'. make_move self et = Inr (result, self') \<and> fst result \<longrightarrow>
        et \<in> dom (edges self) \<and>
        squares_destroyed (last (move_history self')) = {(0, 0)} \<and>
        active_squares_coords self' = {} \<and>
        FragmentedSquaresGame.current_player self = LEFT_PLAYER \<and>
        FragmentedSquaresGame.winner self' = Some LEFT_PLAYER \<and>
        game_over_after (last (move_history self')) \<and>
        get_state_summary self' =
          \<lparr>active_squares = 0, current_player = LEFT_PLAYER,
           winner = Some LEFT_PLAYER, total_moves = 1\<rparr> \<and>
        (\<forall>et'. \<not> is_valid_move self' et')"
    by (intro allI impI) (erule conjE, rule move)
  show ?thesis
    by (rule exI [of _ self]) (intro conjI init dom card each valid_all move_all)
qed

theorem single_square_game_witness:
  "((0, 0), HORIZONTAL) \<in> dom (edges (projr (init simple_square (\<lambda>_. BLUE)))) \<and>
   get_squares_sharing_edge (projr (init simple_square (\<lambda>_. BLUE))) ((0, 0), HORIZONTAL)
     = {(0, 0)} \<and>
   (\<exists>self'. make_move (projr (init simple_square (\<lambda>_. BLUE))) ((0, 0), HORIZONTAL) =
        Inr ((True, ''Destroyed 1 square(s).''), self') \<and>
      active_squares_coords self' = {} \<and>
      FragmentedSquaresGame.winner self' = Some LEFT_PLAYER \<and>
      total_moves (get_state_summary self') = 1)"
proof -
  define et :: edge_tuple where "et = ((0, 0), HORIZONTAL)"
  from single_square_game [of "\<lambda>_. BLUE"]
  obtain s where init: "init simple_square (\<lambda>_. BLUE) = Inr s"
    and dom: "dom (edges s) =
       {((0, 0), HORIZONTAL), ((0, 0), VERTICAL), ((- 1, 0), HORIZONTAL), ((0, - 1), VERTICAL)}"
    and each: "\<forall>et \<in> dom (edges s). get_squares_sharing_edge s et = {(0, 0)} \<and>
        edges s et = Some \<lparr>color = BLUE, exists = True\<rparr>"
    and valid: "\<forall>et. is_valid_move s et \<longleftrightarrow> et \<in> dom (edges s) \<and> BLUE = BLUE"
    and move: "\<forall>et result self'. make_move s et = Inr (result, self') \<and> fst result \<longrightarrow>
        et \<in> dom (edges s) \<and>
        squares_destroyed (last (move_history self')) = {(0, 0)} \<and>
        active_squares_coords self' = {} \<and>
        FragmentedSquaresGame.current_player s = LEFT_PLAYER \<and>
        FragmentedSquaresGame.winner self' = Some LEFT_PLAYER \<and>
        game_over_after (last (move_history self')) \<and>
        get_state_summary self' =
          \<lparr>active_squares = 0, current_player = LEFT_PLAYER,
           winner = Some LEFT_PLAYER, total_moves = 1\<rparr> \<and>
        (\<forall>et'. \<not> is_valid_move self' et')"
    by (elim exE conjE) (rule that)
  have s: "projr (init simple_square (\<lambda>_. BLUE)) = s"
    by (simp add: init)
  have in_dom: "et \<in> dom (edges s)"
    unfolding dom et_def by simp
  from each in_dom have sh: "get_squares_sharing_edge s et = {(0, 0)}"
    and e: "edges s et = Some \<lparr>color = BLUE, exists = True\<rparr>"
    by blast+
  from valid [rule_format, of et] in_dom have v: "is_valid_move s et" by simp
  have "s = reset (\<lambda>_. BLUE) \<lparr>all_squares_coords = {(0, 0)},
         active_squares_coords = {}, edges = Map.empty, current_player = LEFT_PLAYER,
         winner = None, last_move_destructions = 0, move_history = []\<rparr>"
    using init unfolding simple_init by simp
  then have act: "active_squares_coords s = {(0, 0)}"
    by (simp add: reset_active)
  have one: "str_nat (Suc 0) = ''1''"
    by (simp add: str_nat.simps digit_char_def)
  define self' where "self' = snd (perform_move s et \<lparr>color = BLUE, exists = True\<rparr>)"
  have mm: "make_move s et = Inr ((True, ''Destroyed 1 square(s).''), self')"
    using make_move_valid [OF v] pm_result [of s et "\<lparr>color = BLUE, exists = True\<rparr>"]
    by (simp add: e self'_def prod_eq_iff sh act one)
  have "make_move s et = Inr ((True, ''Destroyed 1 square(s).''), self') \<and>
      fst (True, ''Destroyed 1 square(s).'')"
    using mm by simp
  from move [rule_format, OF this]
  have a: "active_squares_coords self' = {}"
    and w: "FragmentedSquaresGame.winner self' = Some LEFT_PLAYER"
    and g: "get_state_summary self' =
          \<lparr>active_squares = 0, current_player = LEFT_PLAYER,
           winner = Some LEFT_PLAYER, total_moves = 1\<rparr>"
    by blast+
  from g have t: "total_moves (get_state_summary self') = 1" by simp
  from mm a w t have "\<exists>self'. make_move s et =
        Inr ((True, ''Destroyed 1 square(s).''), self') \<and>
      active_squares_coords self' = {} \<and>
      FragmentedSquaresGame.winner self' = Some LEFT_PLAYER \<and>
      total_moves (get_state_summary self') = 1"
    by (intro exI [of _ self'] conjI)
  with in_dom sh show ?thesis
    unfolding s et_def by (intro conjI)
qed

subsection \<open>The reason of a refusal\<close>

text \<open>
  Claim C5 says that a refused move is reported with one of four distinguishable
  reasons, the fourth being that the game is already over. The source has three
  reasons and a fallback text, and none for a finished game: in the example game the
  same edge is refused with the same message before and after the game has ended.
\<close>

theorem game_over_reason_counterexample:
  "FragmentedSquaresGame.winner l_game1 = None \<and>
   make_move l_game1 ((1, 0), VERTICAL) =
     Inr ((False, ''Invalid Move: Edge does not border any active squares''), l_game1) \<and>
   FragmentedSquaresGame.winner l_game2 = Some RIGHT_PLAYER \<and>
   make_move l_game2 ((1, 0), VERTICAL) =
     Inr ((False, ''Invalid Move: Edge does not border any active squares''), l_game2)"
proof -
  have d1: "get_squares_sharing_edge l_game0 ((1, 0), VERTICAL) \<inter> active_squares_coords l_game1 = {}"
    by (simp add: l_game0_sharing_v10 l_game1_active)
  have d2: "get_squares_sharing_edge l_game0 ((1, 0), VERTICAL) \<inter> active_squares_coords l_game2 = {}"
    by (simp add: l_game2_active)
  have nv1: "\<not> is_valid_move l_game1 ((1, 0), VERTICAL)"
    by (simp add: is_valid_move_iff d1)
  have nv2: "\<not> is_valid_move l_game2 ((1, 0), VERTICAL)"
    by (simp add: is_valid_move_iff l_game2_winner)
  have r1: "invalid_reason l_game1 ((1, 0), VERTICAL) = ''Edge does not border any active squares''"
    by (simp add: invalid_reason_cases l_game1_edge_v10 l_game1_player d1)
  have r2: "invalid_reason l_game2 ((1, 0), VERTICAL) = ''Edge does not border any active squares''"
    by (simp add: invalid_reason_cases l_game2_edge_v10 l_game2_player d2)
  show ?thesis
    by (simp add: make_move_invalid [OF nv1] make_move_invalid [OF nv2] r1 r2
        l_game1_winner l_game2_winner)
qed

text \<open>
  Claim C5, as amended. A refused move returns \<open>False\<close> and the message
  \<open>Invalid Move:\<close> followed by a reason, the first that applies of: the edge is unknown
  or already removed; the edge has the wrong colour for the current player; the edge
  borders no active square. The three texts tell the three causes apart. A finished
  game has no reason of its own: the call is reported with the one of the three that
  applies to the edge. The fallback \<open>Unknown reason\<close> is given only when a winner is set
  and the edge still borders an active square, which no run from a reset reaches.
\<close>

theorem refusal_reason:
  assumes "\<not> is_valid_move self et"
  shows "\<exists>reason. make_move self et = Inr ((False, ''Invalid Move: '' @ reason), self) \<and>
     (case edges self et of
        None \<Rightarrow> reason = ''Edge does not exist or already removed''
      | Some e \<Rightarrow>
          if \<not> exists e then reason = ''Edge does not exist or already removed''
          else if color e \<noteq> (case FragmentedSquaresGame.current_player self of
                                 LEFT_PLAYER \<Rightarrow> BLUE | RIGHT_PLAYER \<Rightarrow> RED)
          then reason =
                 ''Incorrect color (Player: '' @ player_str (FragmentedSquaresGame.current_player self)
                 @ '', Edge: '' @ (case color e of BLUE \<Rightarrow> ''Blue'' | RED \<Rightarrow> ''Red'') @ '')''
          else if get_squares_sharing_edge self et \<inter> active_squares_coords self = {}
          then reason = ''Edge does not border any active squares''
          else reason = ''Unknown reason'' \<and> FragmentedSquaresGame.winner self \<noteq> None) \<and>
     (reason = ''Edge does not exist or already removed'' \<longleftrightarrow>
        edges self et = None \<or> (\<exists>e. edges self et = Some e \<and> \<not> exists e)) \<and>
     (take 15 reason = ''Incorrect color'' \<longleftrightarrow>
        (\<exists>e. edges self et = Some e \<and> exists e \<and>
           color e \<noteq> (case FragmentedSquaresGame.current_player self of
                        LEFT_PLAYER \<Rightarrow> BLUE | RIGHT_PLAYER \<Rightarrow> RED))) \<and>
     (reason = ''Edge does not border any active squares'' \<longleftrightarrow>
        (\<exists>e. edges self et = Some e \<and> exists e \<and>
           color e = (case FragmentedSquaresGame.current_player self of
                        LEFT_PLAYER \<Rightarrow> BLUE | RIGHT_PLAYER \<Rightarrow> RED) \<and>
           get_squares_sharing_edge self et \<inter> active_squares_coords self = {})) \<and>
     ((\<exists>choice start ets. make_moves (reset choice start) ets = Inr self) \<longrightarrow>
        reason \<noteq> ''Unknown reason'')"
proof -
  define reason where "reason = invalid_reason self et"
  have mm: "make_move self et = Inr ((False, ''Invalid Move: '' @ reason), self)"
    using assms by (simp add: make_move_invalid reason_def)
  note r = invalid_reason_cases [of self et, folded reason_def]
  let ?own = "case FragmentedSquaresGame.current_player self of
                LEFT_PLAYER \<Rightarrow> BLUE | RIGHT_PLAYER \<Rightarrow> RED"
  have own: "?own = (if FragmentedSquaresGame.current_player self = LEFT_PLAYER then BLUE else RED)"
    by (simp split: player.splits)
  consider (none) "edges self et = None"
    | (removed) e where "edges self et = Some e" "\<not> exists e"
    | (colour) e where "edges self et = Some e" "exists e" "color e \<noteq> ?own"
    | (inactive) e where "edges self et = Some e" "exists e" "color e = ?own"
        "get_squares_sharing_edge self et \<inter> active_squares_coords self = {}"
    | (unknown) e where "edges self et = Some e" "exists e" "color e = ?own"
        "get_squares_sharing_edge self et \<inter> active_squares_coords self \<noteq> {}"
    by (cases "edges self et") auto
  then have rest: "(case edges self et of
        None \<Rightarrow> reason = ''Edge does not exist or already removed''
      | Some e \<Rightarrow>
          if \<not> exists e then reason = ''Edge does not exist or already removed''
          else if color e \<noteq> ?own
          then reason =
                 ''Incorrect color (Player: '' @ player_str (FragmentedSquaresGame.current_player self)
                 @ '', Edge: '' @ (case color e of BLUE \<Rightarrow> ''Blue'' | RED \<Rightarrow> ''Red'') @ '')''
          else if get_squares_sharing_edge self et \<inter> active_squares_coords self = {}
          then reason = ''Edge does not border any active squares''
          else reason = ''Unknown reason'' \<and> FragmentedSquaresGame.winner self \<noteq> None) \<and>
     (reason = ''Edge does not exist or already removed'' \<longleftrightarrow>
        edges self et = None \<or> (\<exists>e. edges self et = Some e \<and> \<not> exists e)) \<and>
     (take 15 reason = ''Incorrect color'' \<longleftrightarrow>
        (\<exists>e. edges self et = Some e \<and> exists e \<and> color e \<noteq> ?own)) \<and>
     (reason = ''Edge does not border any active squares'' \<longleftrightarrow>
        (\<exists>e. edges self et = Some e \<and> exists e \<and> color e = ?own \<and>
           get_squares_sharing_edge self et \<inter> active_squares_coords self = {})) \<and>
     ((\<exists>choice start ets. make_moves (reset choice start) ets = Inr self) \<longrightarrow>
        reason \<noteq> ''Unknown reason'')"
  proof cases
    case none
    then show ?thesis using r by simp
  next
    case (removed e)
    then show ?thesis using r by simp
  next
    case (colour e)
    then show ?thesis using r by simp
  next
    case (inactive e)
    then show ?thesis using r by simp
  next
    case (unknown e)
    from assms unknown have w: "FragmentedSquaresGame.winner self \<noteq> None"
      unfolding is_valid_move_iff own by auto
    from unknown(4) have "active_squares_coords self \<noteq> {}" by auto
    have "\<not> (\<exists>choice start ets. make_moves (reset choice start) ets = Inr self)"
    proof
      assume "\<exists>choice start ets. make_moves (reset choice start) ets = Inr self"
      then obtain choice start ets where "make_moves (reset choice start) ets = Inr self"
        by (elim exE)
      from finished_no_active [OF this] w \<open>active_squares_coords self \<noteq> {}\<close>
      show False by simp
    qed
    with unknown w show ?thesis using r by simp
  qed
  show ?thesis
    by (rule exI [of _ reason]) (rule conjI [OF mm rest])
qed

theorem refusal_reason_witness:
  "\<not> is_valid_move l_game0 ((0, 1), VERTICAL) \<and>
   make_move l_game0 ((0, 1), VERTICAL) =
     Inr ((False, ''Invalid Move: Incorrect color (Player: Left (Blue), Edge: Red)''), l_game0)"
proof -
  have nv: "\<not> is_valid_move l_game0 ((0, 1), VERTICAL)"
    by (simp add: is_valid_move_iff l_game0_edge_v01 l_game0_player)
  from refusal_reason [OF nv] obtain reason where
    mm: "make_move l_game0 ((0, 1), VERTICAL) = Inr ((False, ''Invalid Move: '' @ reason), l_game0)"
    and r: "case edges l_game0 ((0, 1), VERTICAL) of
        None \<Rightarrow> reason = ''Edge does not exist or already removed''
      | Some e \<Rightarrow>
          if \<not> exists e then reason = ''Edge does not exist or already removed''
          else if color e \<noteq> (case FragmentedSquaresGame.current_player l_game0 of
                                 LEFT_PLAYER \<Rightarrow> BLUE | RIGHT_PLAYER \<Rightarrow> RED)
          then reason =
                 ''Incorrect color (Player: '' @ player_str (FragmentedSquaresGame.current_player l_game0)
                 @ '', Edge: '' @ (case color e of BLUE \<Rightarrow> ''Blue'' | RED \<Rightarrow> ''Red'') @ '')''
          else if get_squares_sharing_edge l_game0 ((0, 1), VERTICAL) \<inter> active_squares_coords l_game0 = {}
          then reason = ''Edge does not border any active squares''
          else reason = ''Unknown reason'' \<and> FragmentedSquaresGame.winner l_game0 \<noteq> None"
    by (elim exE conjE)
  from r have "reason = ''Incorrect color (Player: Left (Blue), Edge: Red)''"
    by (simp add: l_game0_edge_v01 l_game0_player)
  with mm nv show ?thesis by simp
qed

end
